theory Spec2Isabelle
  imports Complex_Main
begin

section \<open>Mask scoring and selection of \<open>segmenter.py\<close>\<close>

text \<open>
  The development embeds the pure core of the class \<open>Segmenter\<close>: the geometry metrics and
  the weighted score (\<open>_compute_mask_metrics\<close>, \<open>_weighted_mask_selection\<close>), the session
  bookkeeping (\<open>get_best_point\<close>) and the two-round refinement (\<open>propagate_points\<close>).

  Conventions of the embedding.
  \<^item> A binary mask (a 2D numpy array of booleans) is a list of rows, each a list of booleans.
  \<^item> The formulas of the metrics and of the weighted score are stated over the real
    numbers (\<open>compute_mask_metrics\<close>, \<open>weighted_score\<close>): the reading of the code without
    rounding, on an image with a positive number of pixels.
  \<^item> The selection compares the scores that the code computes in double precision. A double
    is a value of the type \<open>fl\<close> (a finite value, an infinity or \<open>nan\<close>), compared as IEEE 754
    compares; the arithmetic operations, with their rounding, are the parameter \<open>ar\<close>, so a
    result proved for every \<open>ar\<close> holds for the arithmetic of the machine. The arithmetic
    \<open>exact_arith\<close> (no rounding, IEEE 754 on the special values) serves in the examples, and
    agrees with the formulas over the reals.
  \<^item> The external primitives (\<open>skimage.measure.perimeter\<close>, the SAM predictor) are parameters.
  \<^item> A Python exception is a value \<open>Inl e\<close> of a sum type; \<open>PredictionFailure\<close> is a failure
    of the external predictor.
  \<^item> The methods keep their names, without the leading underscore.
\<close>

subsection \<open>Data model\<close>

type_synonym mask = "bool list list"

datatype error = IndexError | PredictionFailure

text \<open>\<open>mask.sum()\<close>: the number of true pixels of a boolean array.\<close>

definition mask_sum :: "mask \<Rightarrow> nat" where
  "mask_sum m = sum_list (map (\<lambda>row. length (filter (\<lambda>b. b) row)) m)"

subsection \<open>Geometry metrics (\<open>_compute_mask_metrics\<close>, lines 111--163)\<close>

text \<open>
  The reading over the reals. The method reads \<open>self.height\<close> and \<open>self.width\<close>; they are
  the parameters \<open>height\<close> and
  \<open>width\<close>; the argument \<open>mask\<close> is written \<open>msk\<close>. The result is the triple
  (compactness, size penalty, score); the size penalty is \<open>None\<close> exactly when
  \<open>total_pixels\<close> is zero, where numpy divides by zero.
\<close>

definition compute_mask_metrics ::
  "(mask \<Rightarrow> real) \<Rightarrow> nat \<Rightarrow> nat \<Rightarrow> mask \<Rightarrow> real \<Rightarrow> real \<times> real option \<times> real" where
  "compute_mask_metrics perimeter height width msk score =
     (let mask_area = real (mask_sum msk);
          mask_perimeter = perimeter msk;
          raw_compactness =
            (if mask_area > 0 then
               (let ideal_perimeter = 2 * sqrt (pi * mask_area)
                in if mask_perimeter > 0 then ideal_perimeter / mask_perimeter else 0)
             else 0);
          compactness = min raw_compactness 1;
          total_pixels = height * width;
          size_penalty =
            (if total_pixels = 0 then None
             else
               (let normalized_area = mask_area / real total_pixels;
                    small_mask_penalty =
                      (if normalized_area < 0.001 then normalized_area ^ 4 else 0);
                    large_mask_penalty =
                      (if normalized_area > 0.5 then (normalized_area - 0.4) ^ 4 else 0)
                in Some (normalized_area + small_mask_penalty + large_mask_penalty)))
      in (compactness, size_penalty, score))"

text \<open>\<open>normalized_area\<close> of line 148, for a positive pixel count.\<close>

definition normalized_area :: "nat \<Rightarrow> nat \<Rightarrow> mask \<Rightarrow> real" where
  "normalized_area height width msk = real (mask_sum msk) / real (height * width)"

text \<open>
  The geometry metrics in the words of the specification (section 4.1), as functions of the
  area and the perimeter, and of the normalized area. The code is compared with them below.
\<close>

definition spec_compactness :: "nat \<Rightarrow> real \<Rightarrow> real" where
  "spec_compactness a peri =
     (if a = 0 then 0
      else if peri = 0 then 0
      else min (2 * sqrt (pi * real a) / peri) 1)"

definition spec_size_penalty :: "real \<Rightarrow> real" where
  "spec_size_penalty x =
     x + (if x < 0.001 then x ^ 4 else 0) + (if x > 0.5 then (x - 0.4) ^ 4 else 0)"

text \<open>
  A stand-in for the external perimeter primitive in examples: it returns the same value
  for every mask.
\<close>

definition const_perimeter :: "'a \<Rightarrow> mask \<Rightarrow> 'a" where
  "const_perimeter c m = c"

subsection \<open>The weighted score over the reals (lines 169--180)\<close>

type_synonym weights = "real \<times> real \<times> real"

text \<open>The default value of the keyword argument \<open>weights\<close>.\<close>

definition default_weights :: weights where
  "default_weights = (1.0, 0.8, 1.4)"

text \<open>
  The weighted score of one candidate (lines 173--180) over the reals. \<open>None\<close> stands for
  the image without pixels, where the score is not a real number.
\<close>

definition weighted_score ::
  "(mask \<Rightarrow> real) \<Rightarrow> nat \<Rightarrow> nat \<Rightarrow> weights \<Rightarrow> mask \<Rightarrow> real \<Rightarrow> real option" where
  "weighted_score perimeter height width weights msk score =
     (case weights of (w_s, w_c, w_a) \<Rightarrow>
        (case compute_mask_metrics perimeter height width msk score of
           (compactness, size_penalty, sam_score) \<Rightarrow>
             (case size_penalty of
                None \<Rightarrow> None
              | Some penalty \<Rightarrow>
                  Some (w_s * sam_score + w_c * ln (1 + compactness) - w_a * penalty))))"

subsection \<open>Doubles\<close>

text \<open>
  A double is \<open>nan\<close>, an infinity or a finite value. \<open>fl_gt\<close> is the comparison \<open>>\<close> of
  IEEE 754: false when an operand is \<open>nan\<close>. \<open>fl_lt\<close> is \<open><\<close> and \<open>fl_le\<close> is \<open><=\<close>.
  \<open>py_min a b\<close> is Python's \<open>min(a, b)\<close>: \<open>b\<close> when \<open>b < a\<close>, and \<open>a\<close> otherwise.
\<close>

datatype fl = NaN | NegInf | Fin real | PosInf

fun fl_gt :: "fl \<Rightarrow> fl \<Rightarrow> bool" where
  "fl_gt NaN y = False"
| "fl_gt x NaN = False"
| "fl_gt NegInf y = False"
| "fl_gt x NegInf = True"
| "fl_gt x PosInf = False"
| "fl_gt PosInf y = True"
| "fl_gt (Fin a) (Fin b) = (a > b)"

definition fl_lt :: "fl \<Rightarrow> fl \<Rightarrow> bool" where
  "fl_lt x y = fl_gt y x"

definition fl_le :: "fl \<Rightarrow> fl \<Rightarrow> bool" where
  "fl_le x y = (x \<noteq> NaN \<and> y \<noteq> NaN \<and> \<not> fl_gt x y)"

definition py_min :: "fl \<Rightarrow> fl \<Rightarrow> fl" where
  "py_min a b = (if fl_lt b a then b else a)"

text \<open>
  The arithmetic of doubles, with its rounding: the conversion of a decimal literal and of
  an integer, \<open>np.pi\<close>, the four operations, \<open>np.sqrt\<close>, \<open>np.log\<close> and the power \<open>**\<close> with
  an integer exponent. The integers 0, 1 and 2 of the code are exact and written \<open>Fin 0\<close>,
  \<open>Fin 1\<close> and \<open>Fin 2\<close>.
\<close>

record arith =
  f_lit :: "real \<Rightarrow> fl"
  f_of_nat :: "nat \<Rightarrow> fl"
  f_pi :: fl
  f_add :: "fl \<Rightarrow> fl \<Rightarrow> fl"
  f_sub :: "fl \<Rightarrow> fl \<Rightarrow> fl"
  f_mul :: "fl \<Rightarrow> fl \<Rightarrow> fl"
  f_div :: "fl \<Rightarrow> fl \<Rightarrow> fl"
  f_sqrt :: "fl \<Rightarrow> fl"
  f_log :: "fl \<Rightarrow> fl"
  f_pow :: "fl \<Rightarrow> nat \<Rightarrow> fl"

text \<open>
  \<open>_compute_mask_metrics\<close> (lines 111--163) as the machine computes it. The perimeter
  primitive returns a double. \<open>mask_area > 0\<close> compares integers.
\<close>

definition compute_mask_metrics_fl ::
  "arith \<Rightarrow> (mask \<Rightarrow> fl) \<Rightarrow> nat \<Rightarrow> nat \<Rightarrow> mask \<Rightarrow> fl \<Rightarrow> fl \<times> fl \<times> fl" where
  "compute_mask_metrics_fl ar perimeter height width msk score =
     (let mask_area = mask_sum msk;
          mask_perimeter = perimeter msk;
          raw_compactness =
            (if mask_area > 0 then
               (let ideal_perimeter =
                      f_mul ar (Fin 2) (f_sqrt ar (f_mul ar (f_pi ar) (f_of_nat ar mask_area)))
                in if fl_gt mask_perimeter (Fin 0)
                   then f_div ar ideal_perimeter mask_perimeter
                   else Fin 0)
             else Fin 0);
          compactness = py_min raw_compactness (Fin 1);
          total_pixels = height * width;
          normalized_area = f_div ar (f_of_nat ar mask_area) (f_of_nat ar total_pixels);
          small_mask_penalty =
            (if fl_lt normalized_area (f_lit ar 0.001) then f_pow ar normalized_area 4
             else Fin 0);
          large_mask_penalty =
            (if fl_gt normalized_area (f_lit ar 0.5)
             then f_pow ar (f_sub ar normalized_area (f_lit ar 0.4)) 4
             else Fin 0);
          size_penalty =
            f_add ar (f_add ar normalized_area small_mask_penalty) large_mask_penalty
      in (compactness, size_penalty, score))"

subsection \<open>Selection over the computed scores (lines 165--187)\<close>

type_synonym weights_fl = "fl \<times> fl \<times> fl"

definition default_weights_fl :: "arith \<Rightarrow> weights_fl" where
  "default_weights_fl ar = (f_lit ar 1.0, f_lit ar 0.8, f_lit ar 1.4)"

text \<open>The body of the loop up to the comparison (lines 173--180).\<close>

definition weighted_score_fl ::
  "arith \<Rightarrow> (mask \<Rightarrow> fl) \<Rightarrow> nat \<Rightarrow> nat \<Rightarrow> weights_fl \<Rightarrow> mask \<Rightarrow> fl \<Rightarrow> fl" where
  "weighted_score_fl ar perimeter height width weights msk score =
     (case weights of (w_s, w_c, w_a) \<Rightarrow>
        (case compute_mask_metrics_fl ar perimeter height width msk score of
           (compactness, size_penalty, sam_score) \<Rightarrow>
             f_sub ar
               (f_add ar (f_mul ar w_s sam_score)
                         (f_mul ar w_c (f_log ar (f_add ar (Fin 1) compactness))))
               (f_mul ar w_a size_penalty)))"

text \<open>
  The loop \<open>for i, mask in enumerate(masks)\<close>. The state is the position \<open>i\<close>, the masks still
  to visit, \<open>best_score\<close> and \<open>best_index\<close>. \<open>scores[i]\<close> raises IndexError past the end of
  \<open>scores\<close>.
\<close>

fun selection_loop ::
  "arith \<Rightarrow> (mask \<Rightarrow> fl) \<Rightarrow> nat \<Rightarrow> nat \<Rightarrow> weights_fl \<Rightarrow> fl list \<Rightarrow> nat \<Rightarrow> mask list \<Rightarrow>
     fl \<Rightarrow> int \<Rightarrow> error + int" where
  "selection_loop ar perimeter height width weights scores i [] best_score best_index =
     Inr best_index"
| "selection_loop ar perimeter height width weights scores i (msk # rest) best_score best_index =
     (if length scores \<le> i then Inl IndexError
      else
        (let weighted_score =
               weighted_score_fl ar perimeter height width weights msk (scores ! i)
         in if fl_gt weighted_score best_score
            then selection_loop ar perimeter height width weights scores (Suc i) rest
                   weighted_score (int i)
            else selection_loop ar perimeter height width weights scores (Suc i) rest
                   best_score best_index))"

text \<open>The method: \<open>best_score = -np.inf\<close> and \<open>best_index = -1\<close> before the loop.\<close>

definition weighted_mask_selection ::
  "arith \<Rightarrow> (mask \<Rightarrow> fl) \<Rightarrow> nat \<Rightarrow> nat \<Rightarrow> mask list \<Rightarrow> fl list \<Rightarrow> weights_fl \<Rightarrow> error + int" where
  "weighted_mask_selection ar perimeter height width masks scores weights =
     selection_loop ar perimeter height width weights scores 0 masks NegInf (- 1)"

text \<open>
  A score that can win the comparison against the initial \<open>-np.inf\<close>: neither \<open>nan\<close> nor
  \<open>-inf\<close>. \<open>all_proper\<close> says so of the computed score of every candidate.
\<close>

definition proper :: "fl \<Rightarrow> bool" where
  "proper x = fl_gt x NegInf"

definition all_proper ::
  "arith \<Rightarrow> (mask \<Rightarrow> fl) \<Rightarrow> nat \<Rightarrow> nat \<Rightarrow> weights_fl \<Rightarrow> mask list \<Rightarrow> fl list \<Rightarrow> bool" where
  "all_proper ar perimeter height width weights masks scores =
     (\<forall>j<length masks.
        proper (weighted_score_fl ar perimeter height width weights (masks ! j) (scores ! j)))"

text \<open>
  The arithmetic without rounding: exact on finite values, and as IEEE 754 on \<open>nan\<close>, on
  the infinities and on a division by zero (the zero divisor of the code is the pixel count,
  a positive zero).
\<close>

fun fl_neg :: "fl \<Rightarrow> fl" where
  "fl_neg NaN = NaN"
| "fl_neg NegInf = PosInf"
| "fl_neg PosInf = NegInf"
| "fl_neg (Fin a) = Fin (- a)"

fun ex_add :: "fl \<Rightarrow> fl \<Rightarrow> fl" where
  "ex_add NaN y = NaN"
| "ex_add x NaN = NaN"
| "ex_add PosInf NegInf = NaN"
| "ex_add NegInf PosInf = NaN"
| "ex_add PosInf y = PosInf"
| "ex_add x PosInf = PosInf"
| "ex_add NegInf y = NegInf"
| "ex_add x NegInf = NegInf"
| "ex_add (Fin a) (Fin b) = Fin (a + b)"

definition ex_sub :: "fl \<Rightarrow> fl \<Rightarrow> fl" where
  "ex_sub x y = ex_add x (fl_neg y)"

fun fl_sign :: "fl \<Rightarrow> int" where
  "fl_sign NaN = 0"
| "fl_sign NegInf = - 1"
| "fl_sign PosInf = 1"
| "fl_sign (Fin a) = (if a = 0 then 0 else if a > 0 then 1 else - 1)"

definition signed_inf :: "int \<Rightarrow> fl" where
  "signed_inf s = (if s = 0 then NaN else if s > 0 then PosInf else NegInf)"

fun ex_mul :: "fl \<Rightarrow> fl \<Rightarrow> fl" where
  "ex_mul NaN y = NaN"
| "ex_mul x NaN = NaN"
| "ex_mul (Fin a) (Fin b) = Fin (a * b)"
| "ex_mul x y = signed_inf (fl_sign x * fl_sign y)"

fun ex_div :: "fl \<Rightarrow> fl \<Rightarrow> fl" where
  "ex_div NaN y = NaN"
| "ex_div x NaN = NaN"
| "ex_div (Fin a) (Fin b) = (if b = 0 then signed_inf (fl_sign (Fin a)) else Fin (a / b))"
| "ex_div (Fin a) y = Fin 0"
| "ex_div x (Fin b) = signed_inf (fl_sign x * (if b < 0 then - 1 else 1))"
| "ex_div x y = NaN"

fun ex_sqrt :: "fl \<Rightarrow> fl" where
  "ex_sqrt (Fin a) = (if a < 0 then NaN else Fin (sqrt a))"
| "ex_sqrt PosInf = PosInf"
| "ex_sqrt x = NaN"

fun ex_log :: "fl \<Rightarrow> fl" where
  "ex_log (Fin a) = (if a < 0 then NaN else if a = 0 then NegInf else Fin (ln a))"
| "ex_log PosInf = PosInf"
| "ex_log x = NaN"

fun ex_pow :: "fl \<Rightarrow> nat \<Rightarrow> fl" where
  "ex_pow (Fin a) n = Fin (a ^ n)"
| "ex_pow x 0 = Fin 1"
| "ex_pow NaN n = NaN"
| "ex_pow PosInf n = PosInf"
| "ex_pow NegInf n = (if even n then PosInf else NegInf)"

definition exact_arith :: arith where
  "exact_arith =
     \<lparr>f_lit = Fin, f_of_nat = (\<lambda>n. Fin (real n)), f_pi = Fin pi,
      f_add = ex_add, f_sub = ex_sub, f_mul = ex_mul, f_div = ex_div,
      f_sqrt = ex_sqrt, f_log = ex_log, f_pow = ex_pow\<rparr>"

text \<open>An index that addresses one of \<open>n\<close> candidates, counted from zero.\<close>

definition in_range :: "nat \<Rightarrow> int \<Rightarrow> bool" where
  "in_range n i = (0 \<le> i \<and> i < int n)"

subsection \<open>Refinement (\<open>propagate_points\<close>, lines 230--259)\<close>

text \<open>
  Indexing the first axis of an array with a Python integer: a negative index counts from
  the end, and an index outside \<open>[-n, n)\<close> raises IndexError.
\<close>

definition np_index :: "'a list \<Rightarrow> int \<Rightarrow> error + 'a" where
  "np_index xs i =
     (if 0 \<le> i \<and> i < int (length xs) then Inr (xs ! nat i)
      else if - int (length xs) \<le> i \<and> i < 0 then Inr (xs ! nat (int (length xs) + i))
      else Inl IndexError)"





subsection \<open>Mask inventory and session state (\<open>get_best_point\<close>, lines 189--228)\<close>

text \<open>
  An entry of \<open>self.masks\<close> is a dictionary with the keys \<open>segmentation\<close> and \<open>area\<close>. The
  selection state holds \<open>id(mask)\<close>, the identity of the dictionary object; the field \<open>ident\<close>
  is that identity.
\<close>

record sam_mask =
  ident :: nat
  segmentation :: mask
  area :: int

text \<open>
  The loop of lines 203--209 over \<open>self.masks\<close>, with the state \<open>largest_mask\<close> and
  \<open>largest_area\<close>.
\<close>

fun largest_loop ::
  "nat set \<Rightarrow> sam_mask list \<Rightarrow> sam_mask option \<Rightarrow> int \<Rightarrow> sam_mask option \<times> int" where
  "largest_loop selected_masks [] largest_mask largest_area = (largest_mask, largest_area)"
| "largest_loop selected_masks (m # rest) largest_mask largest_area =
     (if ident m \<notin> selected_masks then
        (if area m > largest_area
         then largest_loop selected_masks rest (Some m) (area m)
         else largest_loop selected_masks rest largest_mask largest_area)
      else largest_loop selected_masks rest largest_mask largest_area)"

text \<open>
  \<open>list(zip(*segmentation.nonzero()))\<close>: the (row, column) pairs of the true pixels, in
  row-major order.
\<close>

definition nonzero :: "mask \<Rightarrow> (nat \<times> nat) list" where
  "nonzero seg =
     concat (map (\<lambda>r. map (\<lambda>c. (r, c)) (filter (\<lambda>c. seg ! r ! c) [0..<length (seg ! r)]))
                 [0..<length seg])"

text \<open>
  \<open>tuple(map(int, np.mean(indices, axis=0)))\<close> for a non-empty list of indices: the mean of
  the rows and the mean of the columns, truncated. The coordinates are natural numbers, so
  the truncated mean is the integer quotient of the sum by the count (the double-precision
  mean of numpy has the same integer part for every array that fits in memory).
\<close>

definition centroid_of :: "(nat \<times> nat) list \<Rightarrow> nat \<times> nat" where
  "centroid_of indices =
     (sum_list (map fst indices) div length indices,
      sum_list (map snd indices) div length indices)"

text \<open>
  \<open>get_best_point\<close> returns the centroid or \<open>None\<close>, and the selection state after the call.
\<close>

definition get_best_point :: "sam_mask list \<Rightarrow> nat set \<Rightarrow> (nat \<times> nat) option \<times> nat set" where
  "get_best_point masks selected_masks =
     (case fst (largest_loop selected_masks masks None 0) of
        None \<Rightarrow> (None, selected_masks)
      | Some largest_mask \<Rightarrow>
          (let indices = nonzero (segmentation largest_mask)
           in if indices = [] then (None, selected_masks)
              else (Some (centroid_of indices), insert (ident largest_mask) selected_masks)))"

text \<open>The mask that a call chooses as largest unselected mask, if any.\<close>

definition chosen :: "sam_mask list \<Rightarrow> nat set \<Rightarrow> sam_mask option" where
  "chosen masks selected_masks = fst (largest_loop selected_masks masks None 0)"

text \<open>
  The mask that a call hands out: the chosen mask when the call returns a centroid, and
  \<open>None\<close> when the call returns the empty result.
\<close>

definition offered :: "sam_mask list \<Rightarrow> nat set \<Rightarrow> sam_mask option" where
  "offered masks selected_masks =
     (case fst (get_best_point masks selected_masks) of
        None \<Rightarrow> None
      | Some c \<Rightarrow> chosen masks selected_masks)"

text \<open>
  A session: \<open>n\<close> successive calls on one inventory. \<open>session\<close> lists what the calls hand out;
  \<open>selected_after\<close> is the selection state after them.
\<close>

fun session :: "nat \<Rightarrow> sam_mask list \<Rightarrow> nat set \<Rightarrow> sam_mask option list" where
  "session 0 masks selected_masks = []"
| "session (Suc n) masks selected_masks =
     offered masks selected_masks
       # session n masks (snd (get_best_point masks selected_masks))"

fun selected_after :: "nat \<Rightarrow> sam_mask list \<Rightarrow> nat set \<Rightarrow> nat set" where
  "selected_after 0 masks selected_masks = selected_masks"
| "selected_after (Suc n) masks selected_masks =
     selected_after n masks (snd (get_best_point masks selected_masks))"

text \<open>
  What the loop of lines 203--209 is to establish: \<open>a\<close> is unselected and of positive area,
  no unselected mask of the list is larger, and every unselected mask stored before \<open>a\<close> is
  strictly smaller.
\<close>

definition first_largest :: "nat set \<Rightarrow> sam_mask list \<Rightarrow> sam_mask \<Rightarrow> bool" where
  "first_largest sel ms a =
     (ident a \<notin> sel \<and> 0 < area a
      \<and> (\<forall>m\<in>set ms. ident m \<notin> sel \<longrightarrow> area m \<le> area a)
      \<and> (\<exists>p q. ms = p @ a # q \<and> (\<forall>m\<in>set p. ident m \<notin> sel \<longrightarrow> area m < area a)))"

text \<open>
  Inventories for examples: the areas 50, 200 and 10 of section 8 of the specification on an
  image of 1 by 400 pixels; two masks on an image of 2 by 3 pixels; and an inventory whose
  largest mask has no true pixel.
\<close>

definition example_inventory :: "sam_mask list" where
  "example_inventory =
     [\<lparr>ident = 0, segmentation = [replicate 50 True @ replicate 350 False], area = 50\<rparr>,
      \<lparr>ident = 1, segmentation = [replicate 200 True @ replicate 200 False], area = 200\<rparr>,
      \<lparr>ident = 2, segmentation = [replicate 10 True @ replicate 390 False], area = 10\<rparr>]"

definition small_inventory :: "sam_mask list" where
  "small_inventory =
     [\<lparr>ident = 0, segmentation = [[False, False, False], [False, False, True]], area = 1\<rparr>,
      \<lparr>ident = 1, segmentation = [[False, True, True], [False, True, True]], area = 4\<rparr>]"

definition degenerate_inventory :: "sam_mask list" where
  "degenerate_inventory =
     [\<lparr>ident = 0, segmentation = [[False, False, False], [False, False, False]], area = 4\<rparr>,
      \<lparr>ident = 1, segmentation = [[False, False, False], [False, False, True]], area = 1\<rparr>]"

section \<open>Verification\<close>

subsection \<open>The geometry metrics and the weighted score\<close>

lemma metrics_compactness:
  "fst (compute_mask_metrics perimeter height width msk score) =
     (if mask_sum msk = 0 then 0
      else if perimeter msk > 0 then min (2 * sqrt (pi * real (mask_sum msk)) / perimeter msk) 1
      else 0)"
  by (simp add: compute_mask_metrics_def Let_def)

lemma metrics_size_penalty:
  "0 < height * width \<Longrightarrow>
   fst (snd (compute_mask_metrics perimeter height width msk score)) =
     Some (spec_size_penalty (normalized_area height width msk))"
  by (simp add: compute_mask_metrics_def Let_def spec_size_penalty_def normalized_area_def)

lemma metrics_score:
  "snd (snd (compute_mask_metrics perimeter height width msk score)) = score"
  by (simp add: compute_mask_metrics_def Let_def)

lemma metrics_compactness_spec:
  "0 \<le> perimeter msk \<Longrightarrow>
   fst (compute_mask_metrics perimeter height width msk score) =
     spec_compactness (mask_sum msk) (perimeter msk)"
  by (auto simp add: metrics_compactness spec_compactness_def)

lemma spec_size_penalty_nonneg: "0 \<le> x \<Longrightarrow> 0 \<le> spec_size_penalty x"
  by (simp add: spec_size_penalty_def)

lemma normalized_area_nonneg: "0 \<le> normalized_area height width msk"
  by (simp add: normalized_area_def)

text \<open>
  Claim C3. For every mask whose externally computed perimeter is not negative: if the mask
  has no true pixel the compactness is 0; otherwise, if the perimeter is 0 the compactness
  is 0; otherwise the compactness is \<open>min (2 * sqrt (pi * area) / perimeter) 1\<close>. The
  compactness lies in the closed interval from 0 to 1.
\<close>

theorem compactness_cases:
  assumes "0 \<le> perimeter msk"
  shows "fst (compute_mask_metrics perimeter height width msk score) =
           (if mask_sum msk = 0 then 0
            else if perimeter msk = 0 then 0
            else min (2 * sqrt (pi * real (mask_sum msk)) / perimeter msk) 1)
         \<and> 0 \<le> fst (compute_mask_metrics perimeter height width msk score)
         \<and> fst (compute_mask_metrics perimeter height width msk score) \<le> 1"
  using assms by (auto simp add: metrics_compactness)

theorem compactness_cases_witness:
  "(0::real) \<le> 4
   \<and> fst (compute_mask_metrics (const_perimeter 4) 2 2 [[True, False], [False, False]] 0.5)
       = min (2 * sqrt pi / 4) 1
   \<and> 0 \<le> fst (compute_mask_metrics (const_perimeter 4) 2 2 [[True, False], [False, False]] 0.5)
   \<and> fst (compute_mask_metrics (const_perimeter 4) 2 2 [[True, False], [False, False]] 0.5) \<le> 1"
  using compactness_cases [of "const_perimeter 4" "[[True, False], [False, False]]" 2 2 "0.5"]
  by (simp add: mask_sum_def const_perimeter_def)

text \<open>
  Claim C4. On an image with a positive number of pixels, the size penalty of a mask with
  normalized area \<open>x\<close> is \<open>x + x ^ 4\<close> when \<open>x < 0.001\<close>, is \<open>x\<close> when
  \<open>0.001 \<le> x \<le> 0.5\<close>, and is \<open>x + (x - 0.4) ^ 4\<close> when \<open>x > 0.5\<close>; it is never negative.
\<close>

theorem size_penalty_cases:
  assumes "0 < height * width"
  shows "fst (snd (compute_mask_metrics perimeter height width msk score)) =
           Some (let x = normalized_area height width msk
                 in if x < 0.001 then x + x ^ 4
                    else if x \<le> 0.5 then x
                    else x + (x - 0.4) ^ 4)
         \<and> (\<exists>p. fst (snd (compute_mask_metrics perimeter height width msk score)) = Some p
                \<and> 0 \<le> p)"
  using assms normalized_area_nonneg[of height width msk]
  by (auto simp add: metrics_size_penalty spec_size_penalty_def Let_def)

theorem size_penalty_cases_witness:
  "(0::nat) < 2 * 2
   \<and> fst (snd (compute_mask_metrics (const_perimeter 4) 2 2 [[True, False], [False, False]] 0.5))
       = Some (1 / 4)"
  using size_penalty_cases [of 2 2 "const_perimeter 4" "[[True, False], [False, False]]" "0.5"]
  by (simp add: mask_sum_def normalized_area_def)


text \<open>
  Claim C1. For every mask, confidence and weight triple, the weighted score is
  \<open>w_score * confidence + w_compact * ln (1 + compactness) - w_size * size_penalty\<close>, with
  the compactness and the size penalty of section 4.1 of the specification, and the default
  weight triple is (1.0, 0.8, 1.4).
\<close>

theorem weighted_score_formula:
  assumes "0 < height * width" and "0 \<le> perimeter msk"
  shows "weighted_score perimeter height width (w_score, w_compact, w_size) msk confidence =
           Some (w_score * confidence
                 + w_compact * ln (1 + spec_compactness (mask_sum msk) (perimeter msk))
                 - w_size * spec_size_penalty (normalized_area height width msk))
         \<and> weighted_score perimeter height width default_weights msk confidence =
           Some (1.0 * confidence
                 + 0.8 * ln (1 + spec_compactness (mask_sum msk) (perimeter msk))
                 - 1.4 * spec_size_penalty (normalized_area height width msk))"
proof -
  have c: "fst (compute_mask_metrics perimeter height width msk confidence) =
             spec_compactness (mask_sum msk) (perimeter msk)"
    using assms(2) by (rule metrics_compactness_spec)
  have p: "fst (snd (compute_mask_metrics perimeter height width msk confidence)) =
             Some (spec_size_penalty (normalized_area height width msk))"
    using assms(1) by (rule metrics_size_penalty)
  have s: "snd (snd (compute_mask_metrics perimeter height width msk confidence)) = confidence"
    by (rule metrics_score)
  obtain a b d where m: "compute_mask_metrics perimeter height width msk confidence = (a, b, d)"
    by (cases "compute_mask_metrics perimeter height width msk confidence") auto
  from c p s m show ?thesis
    by (simp add: weighted_score_def default_weights_def)
qed

theorem weighted_score_formula_witness:
  "(0::nat) < 2 * 2 \<and> (0::real) \<le> 4
   \<and> weighted_score (const_perimeter 4) 2 2 (1, 1, 1) [[True, False], [False, False]] 0.5
       = Some (0.5 + ln (1 + min (2 * sqrt pi / 4) 1) - 1 / 4)"
  using weighted_score_formula [of 2 2 "const_perimeter 4" "[[True, False], [False, False]]" 1 1 1 "0.5"]
  by (simp add: mask_sum_def normalized_area_def spec_compactness_def spec_size_penalty_def
      const_perimeter_def)

subsection \<open>Monotonicity of the size penalty\<close>

lemma spec_size_penalty_mono_low:
  assumes "0 \<le> x" "x \<le> y" "y < 0.001"
  shows "spec_size_penalty x \<le> spec_size_penalty y"
proof -
  have p: "x ^ 4 \<le> y ^ 4" using assms by (intro power_mono) auto
  have "spec_size_penalty x = x + x ^ 4" "spec_size_penalty y = y + y ^ 4"
    using assms by (simp_all add: spec_size_penalty_def)
  with p assms(2) show ?thesis by linarith
qed

lemma spec_size_penalty_ge: "0.001 \<le> y \<Longrightarrow> y \<le> spec_size_penalty y"
  by (simp add: spec_size_penalty_def)

lemma spec_size_penalty_mono_high:
  assumes "0.001 \<le> x" "x \<le> y"
  shows "spec_size_penalty x \<le> spec_size_penalty y"
proof (cases "x > 0.5")
  case True
  then have p: "(x - 0.4) ^ 4 \<le> (y - 0.4) ^ 4" using assms by (intro power_mono) auto
  have "spec_size_penalty x = x + (x - 0.4) ^ 4" "spec_size_penalty y = y + (y - 0.4) ^ 4"
    using True assms by (simp_all add: spec_size_penalty_def)
  with p assms(2) show ?thesis by linarith
next
  case False
  have "spec_size_penalty x = x" using False assms by (simp add: spec_size_penalty_def)
  moreover have "y \<le> spec_size_penalty y" using assms by (intro spec_size_penalty_ge) auto
  ultimately show ?thesis using assms(2) by linarith
qed

lemma spec_size_penalty_cross:
  assumes "0 \<le> x" "x < 0.001" "0.001 \<le> y" "x + x ^ 4 \<le> y"
  shows "spec_size_penalty x \<le> spec_size_penalty y"
proof -
  have "spec_size_penalty x = x + x ^ 4" using assms by (simp add: spec_size_penalty_def)
  moreover have "y \<le> spec_size_penalty y" using assms by (intro spec_size_penalty_ge) auto
  ultimately show ?thesis using assms(4) by linarith
qed

lemma fourth_power_small:
  assumes "0 \<le> (x::real)" "x < 0.001"
  shows "x ^ 4 < 1 / 10 ^ 12"
proof -
  have "x ^ 4 < (0.001::real) ^ 4" using assms by (intro power_strict_mono) auto
  then show ?thesis by (simp add: power4_eq_xxxx)
qed

lemma normalized_area_gap:
  assumes n: "0 < height * width" "height * width \<le> 10 ^ 12"
    and x: "normalized_area height width a < 0.001"
    and y: "0.001 \<le> normalized_area height width b"
  shows "normalized_area height width a + 1 / 10 ^ 12 \<le> normalized_area height width b"
proof -
  let ?N = "real (height * width)"
  have N: "0 < ?N" using n(1) by simp
  have "real (mask_sum a) / ?N < real (mask_sum b) / ?N"
    using x y unfolding normalized_area_def by linarith
  then have "real (mask_sum a) < real (mask_sum b)"
    using N by (simp add: divide_less_cancel)
  then have "mask_sum a < mask_sum b" by simp
  then have "mask_sum a + 1 \<le> mask_sum b" by simp
  then have "real (mask_sum a + 1) \<le> real (mask_sum b)" by (simp only: of_nat_le_iff)
  then have "real (mask_sum a) + 1 \<le> real (mask_sum b)" by simp
  then have "(real (mask_sum a) + 1) / ?N \<le> real (mask_sum b) / ?N"
    using N by (simp add: divide_le_cancel)
  moreover have "1 / 10 ^ 12 \<le> 1 / ?N"
  proof -
    have "?N \<le> real (10 ^ 12)" using n(2) by (simp only: of_nat_le_iff)
    then have "?N \<le> 10 ^ 12" by simp
    with N show ?thesis by (simp add: frac_le)
  qed
  ultimately show ?thesis
    by (simp add: normalized_area_def add_divide_distrib)
qed

text \<open>
  Claim C5, amended. For two masks on the same image dimensions, the first of normalized
  area at most the second's, the size penalty of the first is at most the size penalty of
  the second, unless the image has more than \<open>10 ^ 12\<close> pixels and the first normalized
  area is below 0.001 while the second is not.
\<close>

theorem size_penalty_monotone:
  assumes "0 < height * width"
    and "normalized_area height width a \<le> normalized_area height width b"
    and "height * width \<le> 10 ^ 12
         \<or> \<not> (normalized_area height width a < 0.001
                \<and> 0.001 \<le> normalized_area height width b)"
  shows "\<exists>pa pb. fst (snd (compute_mask_metrics perimeter height width a score_a)) = Some pa
           \<and> fst (snd (compute_mask_metrics perimeter height width b score_b)) = Some pb
           \<and> pa \<le> pb"
proof -
  let ?x = "normalized_area height width a" and ?y = "normalized_area height width b"
  have x0: "0 \<le> ?x" by (rule normalized_area_nonneg)
  have "spec_size_penalty ?x \<le> spec_size_penalty ?y"
  proof (cases "?x < 0.001 \<and> 0.001 \<le> ?y")
    case True
    with assms(3) have "height * width \<le> 10 ^ 12" by blast
    with assms(1) True have "?x + 1 / 10 ^ 12 \<le> ?y" by (intro normalized_area_gap) auto
    moreover have "?x ^ 4 < 1 / 10 ^ 12" using x0 True by (intro fourth_power_small) auto
    ultimately have "?x + ?x ^ 4 \<le> ?y" by linarith
    with x0 True show ?thesis by (intro spec_size_penalty_cross) auto
  next
    case False
    show ?thesis
    proof (cases "?y < 0.001")
      case True
      with x0 assms(2) show ?thesis by (intro spec_size_penalty_mono_low) auto
    next
      case y: False
      with False have "0.001 \<le> ?x" by auto
      with assms(2) show ?thesis by (intro spec_size_penalty_mono_high) auto
    qed
  qed
  then show ?thesis using assms(1) by (simp add: metrics_size_penalty)
qed

theorem size_penalty_monotone_witness:
  "(0::nat) < 1 * 1000
   \<and> normalized_area 1 1000 [replicate 1000 False] < 0.001
   \<and> 0.001 \<le> normalized_area 1 1000 [True # replicate 999 False]
   \<and> (\<exists>pa pb. fst (snd (compute_mask_metrics (const_perimeter 4) 1 1000
                          [replicate 1000 False] 0.5)) = Some pa
         \<and> fst (snd (compute_mask_metrics (const_perimeter 4) 1 1000
                          [True # replicate 999 False] 0.5)) = Some pb
         \<and> pa \<le> pb)"
  using size_penalty_monotone [of 1 1000 "[replicate 1000 False]" "[True # replicate 999 False]"
                                 "const_perimeter 4" "0.5" "0.5"]
  by (simp add: normalized_area_def mask_sum_def)

text \<open>
  The claim as stated fails where the normalized area crosses 0.001 from below: the quartic
  term of a small mask is dropped there. On an image of 1000000 by 2000000 pixels, a mask of
  1999999999 true pixels has a larger size penalty than a mask of 2000000000 true pixels.
\<close>

lemma mask_sum_append: "mask_sum (xs @ ys) = mask_sum xs + mask_sum ys"
  by (simp add: mask_sum_def)

lemma mask_sum_Cons: "mask_sum (r # m) = length (filter (\<lambda>b. b) r) + mask_sum m"
  by (simp add: mask_sum_def)

lemma mask_sum_replicate: "mask_sum (replicate n r) = n * length (filter (\<lambda>b. b) r)"
  by (simp add: mask_sum_def sum_list_replicate)

lemma mask_sum_big_a:
  "mask_sum ((False # replicate 1999999 True) # replicate 999 (replicate 2000000 True)
             @ replicate 999000 (replicate 2000000 False)) = 1999999999"
  by (simp add: mask_sum_Cons mask_sum_append mask_sum_replicate)

lemma mask_sum_big_b:
  "mask_sum (replicate 1000 (replicate 2000000 True)
             @ replicate 999000 (replicate 2000000 False)) = 2000000000"
  by (simp add: mask_sum_append mask_sum_replicate)

theorem size_penalty_monotone_counterexample:
  "normalized_area 1000000 2000000
     ((False # replicate 1999999 True) # replicate 999 (replicate 2000000 True)
      @ replicate 999000 (replicate 2000000 False))
   \<le> normalized_area 1000000 2000000
     (replicate 1000 (replicate 2000000 True) @ replicate 999000 (replicate 2000000 False))
   \<and> fst (snd (compute_mask_metrics (const_perimeter 0) 1000000 2000000
        ((False # replicate 1999999 True) # replicate 999 (replicate 2000000 True)
         @ replicate 999000 (replicate 2000000 False)) 0))
     = Some (1999999999 / 2000000000000 + (1999999999 / 2000000000000) ^ 4)
   \<and> fst (snd (compute_mask_metrics (const_perimeter 0) 1000000 2000000
        (replicate 1000 (replicate 2000000 True) @ replicate 999000 (replicate 2000000 False)) 0))
     = Some (1 / 1000)
   \<and> (1 / 1000 :: real) < 1999999999 / 2000000000000 + (1999999999 / 2000000000000) ^ 4"
  by (simp add: normalized_area_def mask_sum_big_a mask_sum_big_b metrics_size_penalty
      spec_size_penalty_def power_divide)

subsection \<open>Comparison of doubles\<close>

lemma fl_gt_irrefl: "\<not> fl_gt x x"
  by (cases x) auto

lemma fl_gt_trans: "fl_gt a b \<Longrightarrow> fl_gt b c \<Longrightarrow> fl_gt a c"
  by (cases a; cases b; cases c) auto

lemma fl_not_gt_gt: "\<not> fl_gt a b \<Longrightarrow> fl_gt c b \<Longrightarrow> \<not> fl_gt a c"
  by (cases a; cases b; cases c) auto

lemma fl_proper_below: "proper a \<Longrightarrow> \<not> fl_gt a b \<Longrightarrow> fl_gt c b \<Longrightarrow> fl_gt c a"
  by (cases a; cases b; cases c) (auto simp add: proper_def)

lemma proper_iff: "proper x \<longleftrightarrow> x \<noteq> NaN \<and> x \<noteq> NegInf"
  by (cases x) (auto simp add: proper_def)

lemma fl_le_iff: "proper a \<Longrightarrow> proper b \<Longrightarrow> fl_le a b \<longleftrightarrow> \<not> fl_gt a b"
  by (auto simp add: fl_le_def proper_iff)

subsection \<open>The selection returns the first maximum\<close>

lemma selection_loop_running:
  assumes "length scores = i + length rest"
    and "\<forall>j<length rest.
           weighted_score_fl ar perimeter height width weights (rest ! j) (scores ! (i + j))
             = f (i + j)"
    and "\<forall>j<i + length rest. proper (f j)"
    and "k < i"
    and "\<forall>j<i. \<not> fl_gt (f j) (f k)" and "\<forall>j<k. fl_gt (f k) (f j)"
  shows "\<exists>k'<i + length rest.
           selection_loop ar perimeter height width weights scores i rest (f k) (int k)
             = Inr (int k')
           \<and> (\<forall>j<i + length rest. \<not> fl_gt (f j) (f k')) \<and> (\<forall>j<k'. fl_gt (f k') (f j))"
  using assms
proof (induction rest arbitrary: i k)
  case Nil
  then show ?case by auto
next
  case (Cons m rest)
  have here: "weighted_score_fl ar perimeter height width weights m (scores ! i) = f i"
    using Cons.prems(2) by (auto dest: spec [of _ 0])
  have len: "length scores = Suc i + length rest" using Cons.prems(1) by simp
  have vals: "\<forall>j<length rest.
                weighted_score_fl ar perimeter height width weights (rest ! j)
                  (scores ! (Suc i + j)) = f (Suc i + j)"
  proof (intro allI impI)
    fix j assume "j < length rest"
    then have "Suc j < length (m # rest)" by simp
    with Cons.prems(2) have
      "weighted_score_fl ar perimeter height width weights ((m # rest) ! Suc j)
         (scores ! (i + Suc j)) = f (i + Suc j)" by blast
    then show "weighted_score_fl ar perimeter height width weights (rest ! j)
                 (scores ! (Suc i + j)) = f (Suc i + j)" by simp
  qed
  have pr: "\<forall>j<Suc i + length rest. proper (f j)" using Cons.prems(3) by simp
  have inrange: "\<not> length scores \<le> i" using Cons.prems(1) by simp
  show ?case
  proof (cases "fl_gt (f i) (f k)")
    case True
    have a: "\<forall>j<Suc i. \<not> fl_gt (f j) (f i)"
    proof (intro allI impI)
      fix j assume "j < Suc i"
      then consider "j < i" | "j = i" by linarith
      then show "\<not> fl_gt (f j) (f i)"
      proof cases
        case 1
        with Cons.prems(5) have "\<not> fl_gt (f j) (f k)" by blast
        from this True show ?thesis by (rule fl_not_gt_gt)
      next
        case 2
        then show ?thesis by (simp add: fl_gt_irrefl)
      qed
    qed
    have b: "\<forall>j<i. fl_gt (f i) (f j)"
    proof (intro allI impI)
      fix j assume j: "j < i"
      with Cons.prems(5) have n: "\<not> fl_gt (f j) (f k)" by blast
      from j Cons.prems(3) have "proper (f j)" by simp
      from this n True show "fl_gt (f i) (f j)" by (rule fl_proper_below)
    qed
    have i: "i < Suc i" by simp
    from Cons.IH [OF len vals pr i a b] obtain k' where
      "k' < Suc i + length rest"
      "selection_loop ar perimeter height width weights scores (Suc i) rest (f i) (int i)
         = Inr (int k')"
      "\<forall>j<Suc i + length rest. \<not> fl_gt (f j) (f k')" "\<forall>j<k'. fl_gt (f k') (f j)"
      by auto
    with True here inrange show ?thesis
      by (intro exI [of _ k']) (simp add: Let_def)
  next
    case False
    have a: "\<forall>j<Suc i. \<not> fl_gt (f j) (f k)"
    proof (intro allI impI)
      fix j assume "j < Suc i"
      then consider "j < i" | "j = i" by linarith
      then show "\<not> fl_gt (f j) (f k)"
      proof cases
        case 1
        with Cons.prems(5) show ?thesis by blast
      next
        case 2
        with False show ?thesis by simp
      qed
    qed
    have k: "k < Suc i" using Cons.prems(4) by simp
    from Cons.IH [OF len vals pr k a Cons.prems(6)] obtain k' where
      "k' < Suc i + length rest"
      "selection_loop ar perimeter height width weights scores (Suc i) rest (f k) (int k)
         = Inr (int k')"
      "\<forall>j<Suc i + length rest. \<not> fl_gt (f j) (f k')" "\<forall>j<k'. fl_gt (f k') (f j)"
      by auto
    with False here inrange show ?thesis
      by (intro exI [of _ k']) (simp add: Let_def)
  qed
qed

lemma selection_argmax:
  assumes ne: "masks \<noteq> []" and len: "length scores = length masks"
    and pr: "all_proper ar perimeter height width weights masks scores"
  shows "\<exists>k<length masks.
           weighted_mask_selection ar perimeter height width masks scores weights = Inr (int k)
           \<and> (\<forall>j<length masks.
                 \<not> fl_gt (weighted_score_fl ar perimeter height width weights (masks ! j)
                             (scores ! j))
                          (weighted_score_fl ar perimeter height width weights (masks ! k)
                             (scores ! k)))
           \<and> (\<forall>j<k.
                 fl_gt (weighted_score_fl ar perimeter height width weights (masks ! k)
                          (scores ! k))
                       (weighted_score_fl ar perimeter height width weights (masks ! j)
                          (scores ! j)))"
proof -
  let ?f = "\<lambda>j. weighted_score_fl ar perimeter height width weights (masks ! j) (scores ! j)"
  obtain m rest where m: "masks = m # rest" using ne by (cases masks) auto
  have p: "\<forall>j<Suc 0 + length rest. proper (?f j)"
    using pr m by (simp add: all_proper_def)
  have here: "weighted_score_fl ar perimeter height width weights m (scores ! 0) = ?f 0"
    using m by simp
  have l: "length scores = Suc 0 + length rest" using len m by simp
  have v: "\<forall>j<length rest.
             weighted_score_fl ar perimeter height width weights (rest ! j)
               (scores ! (Suc 0 + j)) = ?f (Suc 0 + j)"
    using m by simp
  have "\<exists>k'<Suc 0 + length rest.
           selection_loop ar perimeter height width weights scores (Suc 0) rest (?f 0) (int 0)
             = Inr (int k')
           \<and> (\<forall>j<Suc 0 + length rest. \<not> fl_gt (?f j) (?f k')) \<and> (\<forall>j<k'. fl_gt (?f k') (?f j))"
    by (rule selection_loop_running [OF l v p]) (auto simp add: fl_gt_irrefl)
  then obtain k' where k': "k' < Suc 0 + length rest"
      "selection_loop ar perimeter height width weights scores (Suc 0) rest (?f 0) (int 0)
         = Inr (int k')"
      "\<forall>j<Suc 0 + length rest. \<not> fl_gt (?f j) (?f k')" "\<forall>j<k'. fl_gt (?f k') (?f j)"
    by auto
  have "proper (?f 0)" using p by simp
  then have g: "fl_gt (?f 0) NegInf" by (simp add: proper_def)
  have "weighted_mask_selection ar perimeter height width masks scores weights = Inr (int k')"
    using m here l k'(2) g by (simp add: weighted_mask_selection_def Let_def)
  with k' m show ?thesis by (intro exI [of _ k']) simp
qed

lemma selection_none_proper:
  assumes "length masks \<le> length scores"
    and "\<forall>j<length masks.
           \<not> proper (weighted_score_fl ar perimeter height width weights (masks ! j) (scores ! j))"
  shows "weighted_mask_selection ar perimeter height width masks scores weights = Inr (- 1)"
proof -
  have "selection_loop ar perimeter height width weights scores i rest NegInf (- 1) = Inr (- 1)"
    if "i + length rest \<le> length scores"
      and "\<forall>j<length rest.
             \<not> proper (weighted_score_fl ar perimeter height width weights (rest ! j)
                          (scores ! (i + j)))" for i rest
    using that
  proof (induction rest arbitrary: i)
    case Nil
    then show ?case by simp
  next
    case (Cons m rest)
    have "\<not> proper (weighted_score_fl ar perimeter height width weights m (scores ! i))"
      using Cons.prems(2) by (auto dest: spec [of _ 0])
    then have n: "\<not> fl_gt (weighted_score_fl ar perimeter height width weights m (scores ! i))
                     NegInf" by (simp add: proper_def)
    have r: "\<forall>j<length rest.
             \<not> proper (weighted_score_fl ar perimeter height width weights (rest ! j)
                          (scores ! (Suc i + j)))"
    proof (intro allI impI)
      fix j assume "j < length rest"
      then have "Suc j < length (m # rest)" by simp
      with Cons.prems(2) have
        "\<not> proper (weighted_score_fl ar perimeter height width weights ((m # rest) ! Suc j)
                      (scores ! (i + Suc j)))" by blast
      then show "\<not> proper (weighted_score_fl ar perimeter height width weights (rest ! j)
                          (scores ! (Suc i + j)))" by simp
    qed
    have "Suc i + length rest \<le> length scores" using Cons.prems(1) by simp
    from Cons.IH [OF this r] n Cons.prems(1) show ?case by (simp add: Let_def)
  qed
  from this [of 0 masks] assms show ?thesis by (simp add: weighted_mask_selection_def)
qed


text \<open>
  The computed scores decide, not the exact values of the formula: when rounding makes the
  second of two computed scores the larger one, the selection returns index 1.
\<close>

lemma selection_follows_computed_scores:
  assumes "weighted_score_fl ar perimeter height width weights m1 c1 = Fin a"
    and "weighted_score_fl ar perimeter height width weights m2 c2 = Fin b"
    and "a < b"
  shows "weighted_mask_selection ar perimeter height width [m1, m2] [c1, c2] weights = Inr 1"
  using assms by (simp add: weighted_mask_selection_def Let_def)

text \<open>
  Claim C2, amended. For non-empty parallel sequences of masks and confidences of equal
  length whose computed weighted scores are all neither \<open>nan\<close> nor \<open>-inf\<close>, the selection
  returns the least index whose computed weighted score is the maximum over all candidates.
  With one candidate of such a score it returns index 0, and with two candidates of equal
  such score it returns index 0. This holds for every arithmetic of doubles.
\<close>

theorem selection_least_argmax:
  "(masks \<noteq> [] \<and> length scores = length masks
      \<and> all_proper ar perimeter height width weights masks scores \<longrightarrow>
      (\<exists>k<length masks.
         weighted_mask_selection ar perimeter height width masks scores weights = Inr (int k)
         \<and> (\<forall>j<length masks.
               fl_le (weighted_score_fl ar perimeter height width weights (masks ! j) (scores ! j))
                     (weighted_score_fl ar perimeter height width weights (masks ! k) (scores ! k)))
         \<and> (\<forall>j<k.
               fl_lt (weighted_score_fl ar perimeter height width weights (masks ! j) (scores ! j))
                     (weighted_score_fl ar perimeter height width weights (masks ! k)
                        (scores ! k)))))
   \<and> (proper (weighted_score_fl ar perimeter height width weights m c) \<longrightarrow>
        weighted_mask_selection ar perimeter height width [m] [c] weights = Inr 0)
   \<and> (proper (weighted_score_fl ar perimeter height width weights m1 c1)
        \<and> weighted_score_fl ar perimeter height width weights m1 c1
            = weighted_score_fl ar perimeter height width weights m2 c2 \<longrightarrow>
        weighted_mask_selection ar perimeter height width [m1, m2] [c1, c2] weights = Inr 0)"
proof (intro conjI impI)
  let ?f = "\<lambda>j. weighted_score_fl ar perimeter height width weights (masks ! j) (scores ! j)"
  assume a: "masks \<noteq> [] \<and> length scores = length masks
      \<and> all_proper ar perimeter height width weights masks scores"
  then have ne: "masks \<noteq> []" and len: "length scores = length masks"
    and pr: "all_proper ar perimeter height width weights masks scores" by auto
  from selection_argmax [OF ne len pr] obtain k where k: "k < length masks"
    "weighted_mask_selection ar perimeter height width masks scores weights = Inr (int k)"
    "\<forall>j<length masks. \<not> fl_gt (?f j) (?f k)" "\<forall>j<k. fl_gt (?f k) (?f j)" by blast
  have p: "proper (?f j)" if "j < length masks" for j
    using pr that by (simp add: all_proper_def)
  have "\<forall>j<length masks. fl_le (?f j) (?f k)"
    using k(1,3) p by (simp add: fl_le_iff)
  moreover have "\<forall>j<k. fl_lt (?f j) (?f k)" using k(4) by (simp add: fl_lt_def)
  ultimately show "\<exists>k<length masks.
         weighted_mask_selection ar perimeter height width masks scores weights = Inr (int k)
         \<and> (\<forall>j<length masks. fl_le (?f j) (?f k)) \<and> (\<forall>j<k. fl_lt (?f j) (?f k))"
    using k(1,2) by blast
next
  assume "proper (weighted_score_fl ar perimeter height width weights m c)"
  then show "weighted_mask_selection ar perimeter height width [m] [c] weights = Inr 0"
    by (simp add: weighted_mask_selection_def proper_def Let_def)
next
  assume t: "proper (weighted_score_fl ar perimeter height width weights m1 c1)
        \<and> weighted_score_fl ar perimeter height width weights m1 c1
            = weighted_score_fl ar perimeter height width weights m2 c2"
  from t have e: "weighted_score_fl ar perimeter height width weights m2 c2
              = weighted_score_fl ar perimeter height width weights m1 c1"
    by (rule conjunct2 [THEN sym])
  from t have "proper (weighted_score_fl ar perimeter height width weights m1 c1)"
    by (rule conjunct1)
  then have g: "fl_gt (weighted_score_fl ar perimeter height width weights m1 c1) NegInf"
    by (simp only: proper_def)
  show "weighted_mask_selection ar perimeter height width [m1, m2] [c1, c2] weights = Inr 0"
    by (simp add: weighted_mask_selection_def Let_def g e fl_gt_irrefl)
qed

lemma exact_score_one_pixel:
  "weighted_score_fl exact_arith (const_perimeter (Fin 0)) 1 2 (default_weights_fl exact_arith)
     [[True, False]] (Fin c) = Fin (c - 7 / 10)"
  "weighted_score_fl exact_arith (const_perimeter (Fin 0)) 1 2 (default_weights_fl exact_arith)
     [[False, True]] (Fin c) = Fin (c - 7 / 10)"
  by (simp_all add: weighted_score_fl_def compute_mask_metrics_fl_def default_weights_fl_def
      exact_arith_def mask_sum_def const_perimeter_def py_min_def fl_lt_def ex_sub_def Let_def)

lemma exact_score_nan:
  "weighted_score_fl exact_arith (const_perimeter (Fin 0)) 1 2 (default_weights_fl exact_arith)
     [[True, False]] NaN = NaN"
  by (simp add: weighted_score_fl_def compute_mask_metrics_fl_def default_weights_fl_def
      exact_arith_def mask_sum_def const_perimeter_def py_min_def fl_lt_def ex_sub_def Let_def)

text \<open>
  The claim as stated fails for a score that is \<open>nan\<close>: the comparison with \<open>-np.inf\<close>
  is false, and the selection returns \<open>-1\<close> for the single candidate.
\<close>

theorem single_candidate_counterexample:
  "weighted_mask_selection exact_arith (const_perimeter (Fin 0)) 1 2 [[[True, False]]] [NaN]
     (default_weights_fl exact_arith) = Inr (- 1)
   \<and> weighted_mask_selection exact_arith (const_perimeter (Fin 0)) 1 2 [[[True, False]]] [NaN]
     (default_weights_fl exact_arith) \<noteq> Inr 0"
  by (simp add: weighted_mask_selection_def exact_score_nan Let_def del: One_nat_def)

text \<open>
  On an image without pixels the normalized area of the empty mask is \<open>0 / 0\<close>, that is
  \<open>nan\<close>; no exception is raised and the selection returns \<open>-1\<close>.
\<close>

lemma zero_pixel_image_example:
  "weighted_mask_selection exact_arith (const_perimeter (Fin 0)) 0 0 [[]] [Fin (1 / 2)]
     (default_weights_fl exact_arith) = Inr (- 1)"
  by (simp add: weighted_mask_selection_def weighted_score_fl_def compute_mask_metrics_fl_def
      default_weights_fl_def exact_arith_def mask_sum_def const_perimeter_def py_min_def
      fl_lt_def ex_sub_def signed_inf_def Let_def)

text \<open>
  Claim C9. With no candidate the selection returns the value \<open>-1\<close> and raises nothing,
  whatever the sequence of confidences. The value \<open>-1\<close> is not an index between 0 and the
  length of any sequence, and indexing the empty candidate sequence with it raises
  IndexError.
\<close>

theorem selection_empty:
  "weighted_mask_selection ar perimeter height width [] scores weights = Inr (- 1)
   \<and> \<not> in_range n (- 1)
   \<and> np_index ([] :: 'a list) (- 1) = Inl IndexError"
  by (simp add: weighted_mask_selection_def in_range_def np_index_def)

lemma exact_score_two_pixels:
  "weighted_score_fl exact_arith (const_perimeter (Fin 0)) 1 2 (default_weights_fl exact_arith)
     [[True, True]] (Fin c) = Fin (c - 158144 / 100000)"
  by (simp add: weighted_score_fl_def compute_mask_metrics_fl_def default_weights_fl_def
      exact_arith_def mask_sum_def const_perimeter_def py_min_def fl_lt_def ex_sub_def Let_def
      power_divide)

lemma all_proper_Nil: "all_proper ar perimeter height width weights [] scores"
  by (simp add: all_proper_def)

lemma all_proper_Cons:
  "all_proper ar perimeter height width weights (m # ms) (c # cs) \<longleftrightarrow>
     proper (weighted_score_fl ar perimeter height width weights m c)
     \<and> all_proper ar perimeter height width weights ms cs"
  by (auto simp add: all_proper_def less_Suc_eq_0_disj)

lemma example_all_proper:
  "all_proper exact_arith (const_perimeter (Fin 0)) 1 2 (default_weights_fl exact_arith)
     [[[True, False]], [[True, True]]] [Fin 0.5, Fin 0.9]"
  by (simp add: all_proper_Cons all_proper_Nil proper_def exact_score_one_pixel
      exact_score_two_pixels del: One_nat_def)

theorem selection_least_argmax_witness:
  "[[[True, False]], [[True, True]]] \<noteq> []
   \<and> length [Fin 0.5, Fin 0.9] = length [[[True, False]], [[True, True]]]
   \<and> all_proper exact_arith (const_perimeter (Fin 0)) 1 2 (default_weights_fl exact_arith)
         [[[True, False]], [[True, True]]] [Fin 0.5, Fin 0.9]
   \<and> weighted_mask_selection exact_arith (const_perimeter (Fin 0)) 1 2
         [[[True, False]], [[True, True]]] [Fin 0.5, Fin 0.9] (default_weights_fl exact_arith)
       = Inr 0
   \<and> (\<exists>k<length [[[True, False]], [[True, True]]].
         weighted_mask_selection exact_arith (const_perimeter (Fin 0)) 1 2
           [[[True, False]], [[True, True]]] [Fin 0.5, Fin 0.9] (default_weights_fl exact_arith)
           = Inr (int k)
         \<and> (\<forall>j<length [[[True, False]], [[True, True]]].
               fl_le (weighted_score_fl exact_arith (const_perimeter (Fin 0)) 1 2
                        (default_weights_fl exact_arith)
                        ([[[True, False]], [[True, True]]] ! j) ([Fin 0.5, Fin 0.9] ! j))
                     (weighted_score_fl exact_arith (const_perimeter (Fin 0)) 1 2
                        (default_weights_fl exact_arith)
                        ([[[True, False]], [[True, True]]] ! k) ([Fin 0.5, Fin 0.9] ! k)))
         \<and> (\<forall>j<k.
               fl_lt (weighted_score_fl exact_arith (const_perimeter (Fin 0)) 1 2
                        (default_weights_fl exact_arith)
                        ([[[True, False]], [[True, True]]] ! j) ([Fin 0.5, Fin 0.9] ! j))
                     (weighted_score_fl exact_arith (const_perimeter (Fin 0)) 1 2
                        (default_weights_fl exact_arith)
                        ([[[True, False]], [[True, True]]] ! k) ([Fin 0.5, Fin 0.9] ! k))))
   \<and> weighted_mask_selection exact_arith (const_perimeter (Fin 0)) 1 2 [[[True, False]]]
         [Fin 0.5] (default_weights_fl exact_arith) = Inr 0
   \<and> weighted_mask_selection exact_arith (const_perimeter (Fin 0)) 1 2
         [[[True, False]], [[False, True]]] [Fin 0.5, Fin 0.5] (default_weights_fl exact_arith)
       = Inr 0"
proof -
  have ne: "[[[True, False]], [[True, True]]] \<noteq> []
            \<and> length [Fin 0.5, Fin 0.9] = length [[[True, False]], [[True, True]]]
            \<and> all_proper exact_arith (const_perimeter (Fin 0)) 1 2
                 (default_weights_fl exact_arith)
                 [[[True, False]], [[True, True]]] [Fin 0.5, Fin 0.9]"
    using example_all_proper by simp
  have p: "proper (weighted_score_fl exact_arith (const_perimeter (Fin 0)) 1 2
                     (default_weights_fl exact_arith) [[True, False]] (Fin 0.5))"
    by (simp add: exact_score_one_pixel proper_def del: One_nat_def)
  have e: "weighted_score_fl exact_arith (const_perimeter (Fin 0)) 1 2
             (default_weights_fl exact_arith) [[True, False]] (Fin 0.5)
           = weighted_score_fl exact_arith (const_perimeter (Fin 0)) 1 2
             (default_weights_fl exact_arith) [[False, True]] (Fin 0.5)"
    by (simp add: exact_score_one_pixel del: One_nat_def)
  note t = selection_least_argmax
     [where ar = exact_arith and perimeter = "const_perimeter (Fin 0)" and height = 1
        and width = 2 and weights = "default_weights_fl exact_arith"
        and masks = "[[[True, False]], [[True, True]]]" and scores = "[Fin 0.5, Fin 0.9]"
        and m = "[[True, False]]" and c = "Fin 0.5"]
  from t [of "[[True, False]]" "Fin 0.5" "[[False, True]]" "Fin 0.5"] ne
  have general: "\<exists>k<length [[[True, False]], [[True, True]]].
         weighted_mask_selection exact_arith (const_perimeter (Fin 0)) 1 2
           [[[True, False]], [[True, True]]] [Fin 0.5, Fin 0.9] (default_weights_fl exact_arith)
           = Inr (int k)
         \<and> (\<forall>j<length [[[True, False]], [[True, True]]].
               fl_le (weighted_score_fl exact_arith (const_perimeter (Fin 0)) 1 2
                        (default_weights_fl exact_arith)
                        ([[[True, False]], [[True, True]]] ! j) ([Fin 0.5, Fin 0.9] ! j))
                     (weighted_score_fl exact_arith (const_perimeter (Fin 0)) 1 2
                        (default_weights_fl exact_arith)
                        ([[[True, False]], [[True, True]]] ! k) ([Fin 0.5, Fin 0.9] ! k)))
         \<and> (\<forall>j<k.
               fl_lt (weighted_score_fl exact_arith (const_perimeter (Fin 0)) 1 2
                        (default_weights_fl exact_arith)
                        ([[[True, False]], [[True, True]]] ! j) ([Fin 0.5, Fin 0.9] ! j))
                     (weighted_score_fl exact_arith (const_perimeter (Fin 0)) 1 2
                        (default_weights_fl exact_arith)
                        ([[[True, False]], [[True, True]]] ! k) ([Fin 0.5, Fin 0.9] ! k)))"
    by blast
  from t [of "[[True, False]]" "Fin 0.5" "[[False, True]]" "Fin 0.5"] p
  have single: "weighted_mask_selection exact_arith (const_perimeter (Fin 0)) 1 2
         [[[True, False]]] [Fin 0.5] (default_weights_fl exact_arith) = Inr 0"
    by blast
  from t [of "[[True, False]]" "Fin 0.5" "[[False, True]]" "Fin 0.5"] p e
  have tie: "weighted_mask_selection exact_arith (const_perimeter (Fin 0)) 1 2
         [[[True, False]], [[False, True]]] [Fin 0.5, Fin 0.5] (default_weights_fl exact_arith)
       = Inr 0"
    by blast
  have first: "weighted_mask_selection exact_arith (const_perimeter (Fin 0)) 1 2
         [[[True, False]], [[True, True]]] [Fin 0.5, Fin 0.9] (default_weights_fl exact_arith)
       = Inr 0"
    by (simp add: weighted_mask_selection_def exact_score_one_pixel exact_score_two_pixels
        Let_def del: One_nat_def)
  from ne first general single tie show ?thesis by blast
qed

subsection \<open>The two rounds of refinement\<close>






subsection \<open>The exact arithmetic agrees with the formulas over the reals\<close>

lemma exact_metrics_agree:
  assumes "0 < height * width"
  shows "compute_mask_metrics_fl exact_arith (\<lambda>m. Fin (perimeter m)) height width msk (Fin score)
         = (case compute_mask_metrics perimeter height width msk score of
              (compactness, size_penalty, sam_score) \<Rightarrow>
                (Fin compactness, Fin (the size_penalty), Fin sam_score))"
proof -
  have "\<not> pi * real (mask_sum msk) < 0"
    by (simp add: not_less)
  with assms show ?thesis
    by (simp add: compute_mask_metrics_fl_def compute_mask_metrics_def exact_arith_def py_min_def
        fl_lt_def ex_sub_def Let_def min_def)
qed

lemma exact_arith_ops:
  "f_add exact_arith = ex_add" "f_sub exact_arith = ex_sub" "f_mul exact_arith = ex_mul"
  "f_log exact_arith = ex_log"
  by (simp_all add: exact_arith_def)

lemma exact_weighted_score_agrees:
  assumes "0 < height * width" and "0 \<le> perimeter msk"
    and "weighted_score perimeter height width (w_s, w_c, w_a) msk score = Some s"
  shows "weighted_score_fl exact_arith (\<lambda>m. Fin (perimeter m)) height width
           (Fin w_s, Fin w_c, Fin w_a) msk (Fin score) = Fin s"
proof -
  obtain a b d where m: "compute_mask_metrics perimeter height width msk score = (a, b, d)"
    by (cases "compute_mask_metrics perimeter height width msk score") auto
  have a0: "0 \<le> a"
    using m assms(2) by (auto simp add: compute_mask_metrics_def Let_def min_def split: if_splits)
  from m assms(1) obtain p where b: "b = Some p"
    by (auto simp add: compute_mask_metrics_def Let_def)
  from assms(3) m b have s: "s = w_s * d + w_c * ln (1 + a) - w_a * p"
    by (simp add: weighted_score_def)
  show ?thesis
    using a0 by (simp add: weighted_score_fl_def exact_metrics_agree [OF assms(1)] m b s
        exact_arith_ops ex_sub_def)
qed

subsection \<open>The largest unselected mask\<close>

lemma first_largest_snoc_keep:
  assumes "first_largest sel pre a" "ident m \<in> sel \<or> area m \<le> area a"
  shows "first_largest sel (pre @ [m]) a"
proof -
  from assms(1) obtain p q where pq: "pre = p @ a # q"
    "\<forall>m\<in>set p. ident m \<notin> sel \<longrightarrow> area m < area a"
    by (auto simp add: first_largest_def)
  then have "pre @ [m] = p @ a # (q @ [m])" by simp
  with pq(2) have "\<exists>p q. pre @ [m] = p @ a # q
      \<and> (\<forall>m\<in>set p. ident m \<notin> sel \<longrightarrow> area m < area a)" by blast
  with assms show ?thesis by (auto simp add: first_largest_def)
qed

lemma first_largest_snoc_new:
  assumes "ident m \<notin> sel" "0 < area m"
    "\<forall>x\<in>set pre. ident x \<notin> sel \<longrightarrow> area x < area m"
  shows "first_largest sel (pre @ [m]) m"
proof -
  have "pre @ [m] = pre @ m # []" by simp
  with assms(3) have e: "\<exists>p q. pre @ [m] = p @ m # q
      \<and> (\<forall>x\<in>set p. ident x \<notin> sel \<longrightarrow> area x < area m)" by blast
  have "\<forall>x\<in>set (pre @ [m]). ident x \<notin> sel \<longrightarrow> area x \<le> area m"
    using assms(3) by fastforce
  with e assms(1,2) show ?thesis unfolding first_largest_def by blast
qed

lemma largest_loop_spec:
  assumes "lm = None \<longrightarrow> la = 0 \<and> (\<forall>m\<in>set pre. ident m \<notin> sel \<longrightarrow> area m \<le> 0)"
    and "\<forall>a. lm = Some a \<longrightarrow> la = area a \<and> first_largest sel pre a"
  shows "(fst (largest_loop sel ms lm la) = None \<longrightarrow>
            (\<forall>m\<in>set (pre @ ms). ident m \<notin> sel \<longrightarrow> area m \<le> 0))
         \<and> (\<forall>a. fst (largest_loop sel ms lm la) = Some a \<longrightarrow> first_largest sel (pre @ ms) a)"
  using assms
proof (induction ms arbitrary: lm la pre)
  case Nil
  then show ?case by simp
next
  case (Cons m ms)
  have bound: "\<forall>x\<in>set pre. ident x \<notin> sel \<longrightarrow> area x \<le> la"
  proof (cases lm)
    case None
    with Cons.prems(1) show ?thesis by simp
  next
    case (Some a)
    with Cons.prems(2) show ?thesis by (simp add: first_largest_def)
  qed
  have la0: "0 \<le> la"
  proof (cases lm)
    case None
    with Cons.prems(1) show ?thesis by simp
  next
    case (Some a)
    with Cons.prems(2) show ?thesis by (simp add: first_largest_def)
  qed
  show ?case
  proof (cases "ident m \<notin> sel \<and> area m > la")
    case True
    have "\<forall>x\<in>set pre. ident x \<notin> sel \<longrightarrow> area x < area m"
      using bound True by fastforce
    with True la0 have fl: "first_largest sel (pre @ [m]) m"
      by (intro first_largest_snoc_new) auto
    have 1: "Some m = None \<longrightarrow>
               area m = 0 \<and> (\<forall>x\<in>set (pre @ [m]). ident x \<notin> sel \<longrightarrow> area x \<le> 0)"
      by simp
    have 2: "\<forall>a. Some m = Some a \<longrightarrow> area m = area a \<and> first_largest sel (pre @ [m]) a"
      using fl by simp
    from Cons.IH [OF 1 2] True show ?thesis by simp
  next
    case False
    have 1: "lm = None \<longrightarrow>
               la = 0 \<and> (\<forall>x\<in>set (pre @ [m]). ident x \<notin> sel \<longrightarrow> area x \<le> 0)"
      using Cons.prems(1) False by auto
    have 2: "\<forall>a. lm = Some a \<longrightarrow> la = area a \<and> first_largest sel (pre @ [m]) a"
    proof (intro allI impI)
      fix a assume a: "lm = Some a"
      with Cons.prems(2) have "la = area a" "first_largest sel pre a" by auto
      moreover from this False have "ident m \<in> sel \<or> area m \<le> area a" by auto
      ultimately show "la = area a \<and> first_largest sel (pre @ [m]) a"
        by (simp add: first_largest_snoc_keep)
    qed
    from Cons.IH [OF 1 2] False show ?thesis by auto
  qed
qed

lemma chosen_None:
  "chosen masks sel = None \<Longrightarrow> \<forall>m\<in>set masks. ident m \<notin> sel \<longrightarrow> area m \<le> 0"
  using largest_loop_spec [where lm = None and la = 0 and sel = sel and pre = "[]" and ms = masks]
  by (simp add: chosen_def)

lemma chosen_Some:
  "chosen masks sel = Some a \<Longrightarrow> first_largest sel masks a"
  using largest_loop_spec [where lm = None and la = 0 and sel = sel and pre = "[]" and ms = masks]
  by (simp add: chosen_def)

lemma chosen_Some_mem: "chosen masks sel = Some a \<Longrightarrow> a \<in> set masks"
  by (drule chosen_Some) (auto simp add: first_largest_def)

lemma chosen_all_selected:
  "\<forall>m\<in>set masks. ident m \<in> sel \<Longrightarrow> chosen masks sel = None"
  using chosen_Some [of masks sel] chosen_Some_mem [of masks sel]
  by (cases "chosen masks sel") (auto simp add: first_largest_def)

subsection \<open>Sessions of calls\<close>

lemma get_best_point_nondegenerate:
  assumes "\<forall>m\<in>set masks. nonzero (segmentation m) \<noteq> []"
  shows "snd (get_best_point masks sel)
           = (case chosen masks sel of None \<Rightarrow> sel | Some a \<Rightarrow> insert (ident a) sel)"
    and "offered masks sel = chosen masks sel"
proof -
  have nd: "nonzero (segmentation a) \<noteq> []" if "chosen masks sel = Some a" for a
    using that assms chosen_Some_mem by blast
  show "snd (get_best_point masks sel)
           = (case chosen masks sel of None \<Rightarrow> sel | Some a \<Rightarrow> insert (ident a) sel)"
    using nd by (cases "chosen masks sel") (simp_all add: get_best_point_def chosen_def Let_def)
  show "offered masks sel = chosen masks sel"
    using nd by (cases "chosen masks sel")
      (simp_all add: offered_def get_best_point_def chosen_def Let_def)
qed

lemma offered_None_unchanged:
  "offered masks sel = None \<Longrightarrow> snd (get_best_point masks sel) = sel"
  by (auto simp add: offered_def get_best_point_def chosen_def Let_def
      split: option.splits if_splits)

lemma length_session: "length (session n masks sel) = n"
  by (induction n arbitrary: sel) auto

lemma selected_after_Suc:
  "selected_after (Suc i) masks sel = snd (get_best_point masks (selected_after i masks sel))"
  by (induction i arbitrary: sel) auto

lemma session_nth:
  "i < n \<Longrightarrow> session n masks sel ! i = offered masks (selected_after i masks sel)"
proof (induction n arbitrary: i sel)
  case 0
  then show ?case by simp
next
  case (Suc n)
  then show ?case by (cases i) auto
qed

lemma session_take: "i \<le> n \<Longrightarrow> take i (session n masks sel) = session i masks sel"
proof (induction n arbitrary: i sel)
  case 0
  then show ?case by simp
next
  case (Suc n)
  then show ?case by (cases i) auto
qed

lemma selected_after_mono: "selected_after i masks sel \<subseteq> selected_after (i + d) masks sel"
proof (induction d)
  case 0
  then show ?case by simp
next
  case (Suc d)
  have "selected_after (i + d) masks sel
          \<subseteq> snd (get_best_point masks (selected_after (i + d) masks sel))"
    by (auto simp add: get_best_point_def Let_def split: option.splits)
  moreover have "selected_after (i + Suc d) masks sel
                   = snd (get_best_point masks (selected_after (i + d) masks sel))"
    by (simp only: add_Suc_right selected_after_Suc)
  ultimately show ?case using Suc by blast
qed

lemma selected_after_returned:
  assumes "\<forall>m\<in>set masks. nonzero (segmentation m) \<noteq> []"
  shows "selected_after i masks sel = sel \<union> ident ` {a. Some a \<in> set (session i masks sel)}"
proof (induction i arbitrary: sel)
  case 0
  then show ?case by simp
next
  case (Suc i)
  show ?case
  proof (cases "chosen masks sel")
    case None
    then show ?thesis
      using Suc [of sel] get_best_point_nondegenerate [OF assms, of sel] by simp
  next
    case (Some c)
    then show ?thesis
      using Suc [of "insert (ident c) sel"] get_best_point_nondegenerate [OF assms, of sel]
      by auto
  qed
qed

lemma session_terminal:
  assumes "offered masks (selected_after i masks sel) = None"
  shows "selected_after (i + d) masks sel = selected_after i masks sel"
proof (induction d)
  case 0
  then show ?case by simp
next
  case (Suc d)
  have "selected_after (i + Suc d) masks sel
          = snd (get_best_point masks (selected_after (i + d) masks sel))"
    by (simp only: add_Suc_right selected_after_Suc)
  with Suc assms show ?case by (simp add: offered_None_unchanged)
qed

lemma offered_Some_chosen: "offered masks sel = Some a \<Longrightarrow> chosen masks sel = Some a"
  by (simp add: offered_def split: option.splits)

lemma session_mem:
  assumes "Some a \<in> set (session i masks sel)"
  shows "a \<in> set masks"
proof -
  from assms obtain k where k: "k < i" "session i masks sel ! k = Some a"
    by (auto simp add: in_set_conv_nth length_session)
  then have "offered masks (selected_after k masks sel) = Some a"
    by (simp add: session_nth)
  then show ?thesis by (intro chosen_Some_mem offered_Some_chosen)
qed

lemma selected_iff_returned:
  assumes d: "distinct (map ident masks)"
    and nd: "\<forall>m\<in>set masks. nonzero (segmentation m) \<noteq> []"
    and i: "i \<le> n" and m: "m \<in> set masks"
  shows "ident m \<in> selected_after i masks {} \<longleftrightarrow> Some m \<in> set (take i (session n masks {}))"
proof -
  have inj: "inj_on ident (set masks)" using d by (simp add: distinct_map)
  have t: "take i (session n masks {}) = session i masks {}" using i by (rule session_take)
  have s: "selected_after i masks {} = ident ` {a. Some a \<in> set (session i masks {})}"
    using selected_after_returned [OF nd, of i "{}"] by simp
  show ?thesis
  proof
    assume "ident m \<in> selected_after i masks {}"
    with s obtain a where a: "Some a \<in> set (session i masks {})" "ident m = ident a" by auto
    from a(1) have "a \<in> set masks" by (rule session_mem)
    with inj m a(2) have "m = a" by (auto dest: inj_onD)
    with a(1) t show "Some m \<in> set (take i (session n masks {}))" by simp
  next
    assume "Some m \<in> set (take i (session n masks {}))"
    with t s show "ident m \<in> selected_after i masks {}" by auto
  qed
qed

text \<open>
  Claim C7. For an inventory of masks with pairwise distinct identities whose segmentations
  all have a true pixel, in a session of \<open>n\<close> calls from the empty selection state: every
  mask handed out is a mask of the inventory that no earlier call handed out, its area is the
  largest among the masks not handed out earlier, and it is the first such mask in storage
  order; of two masks handed out, the later one has at most the area of the earlier one and
  is a different mask; after an empty result every later call returns the empty result;
  once every mask has been handed out the call returns the empty result; and as long as a
  mask of positive area has not been handed out, the call hands out a mask.
\<close>

theorem largest_unselected_order:
  assumes d: "distinct (map ident masks)"
    and nd: "\<forall>m\<in>set masks. nonzero (segmentation m) \<noteq> []"
  shows "(\<forall>i<n. \<forall>a. session n masks {} ! i = Some a \<longrightarrow>
            a \<in> set masks \<and> Some a \<notin> set (take i (session n masks {}))
            \<and> (\<forall>m\<in>set masks. Some m \<notin> set (take i (session n masks {}))
                  \<longrightarrow> area m \<le> area a)
            \<and> (\<exists>p q. masks = p @ a # q
                  \<and> (\<forall>m\<in>set p. Some m \<notin> set (take i (session n masks {}))
                        \<longrightarrow> area m < area a)))
         \<and> (\<forall>i j a b. i < j \<and> j < n \<and> session n masks {} ! i = Some a
                \<and> session n masks {} ! j = Some b \<longrightarrow> area b \<le> area a \<and> a \<noteq> b)
         \<and> (\<forall>i j. i \<le> j \<and> j < n \<and> session n masks {} ! i = None
                \<longrightarrow> session n masks {} ! j = None)
         \<and> (\<forall>i<n. (\<forall>m\<in>set masks. Some m \<in> set (take i (session n masks {})))
                \<longrightarrow> session n masks {} ! i = None)
         \<and> (\<forall>i<n. (\<exists>m\<in>set masks. Some m \<notin> set (take i (session n masks {}))
                          \<and> 0 < area m)
                \<longrightarrow> (\<exists>a. session n masks {} ! i = Some a))"
proof -
  let ?outs = "session n masks {}"
  let ?S = "\<lambda>i. selected_after i masks {}"
  have out: "?outs ! i = chosen masks (?S i)" if "i < n" for i
    using that by (simp add: session_nth get_best_point_nondegenerate(2) [OF nd])
  have sel: "ident m \<in> ?S i \<longleftrightarrow> Some m \<in> set (take i ?outs)"
    if "i \<le> n" "m \<in> set masks" for i m
    using d nd that by (rule selected_iff_returned)
  have first: "a \<in> set masks \<and> Some a \<notin> set (take i ?outs)
            \<and> (\<forall>m\<in>set masks. Some m \<notin> set (take i ?outs) \<longrightarrow> area m \<le> area a)
            \<and> (\<exists>p q. masks = p @ a # q
                  \<and> (\<forall>m\<in>set p. Some m \<notin> set (take i ?outs) \<longrightarrow> area m < area a))"
    if i: "i < n" and a: "?outs ! i = Some a" for i a
  proof -
    from i a have c: "chosen masks (?S i) = Some a" by (simp add: out)
    then have mem: "a \<in> set masks" by (rule chosen_Some_mem)
    from c have fl: "first_largest (?S i) masks a" by (rule chosen_Some)
    from fl have "ident a \<notin> ?S i" by (simp add: first_largest_def)
    with sel [of i a] i mem have 1: "Some a \<notin> set (take i ?outs)" by simp
    have 2: "\<forall>m\<in>set masks. Some m \<notin> set (take i ?outs) \<longrightarrow> area m \<le> area a"
    proof (intro ballI impI)
      fix m assume "m \<in> set masks" "Some m \<notin> set (take i ?outs)"
      with sel [of i m] i have "ident m \<notin> ?S i" by simp
      with fl \<open>m \<in> set masks\<close> show "area m \<le> area a" by (simp add: first_largest_def)
    qed
    from fl obtain p q where pq: "masks = p @ a # q"
      "\<forall>m\<in>set p. ident m \<notin> ?S i \<longrightarrow> area m < area a"
      by (auto simp add: first_largest_def)
    have "\<forall>m\<in>set p. Some m \<notin> set (take i ?outs) \<longrightarrow> area m < area a"
    proof (intro ballI impI)
      fix m assume "m \<in> set p" "Some m \<notin> set (take i ?outs)"
      from \<open>m \<in> set p\<close> pq(1) have "m \<in> set masks" by simp
      with sel [of i m] i \<open>Some m \<notin> set (take i ?outs)\<close> have "ident m \<notin> ?S i" by simp
      with pq(2) \<open>m \<in> set p\<close> show "area m < area a" by blast
    qed
    with pq(1) have 3: "\<exists>p q. masks = p @ a # q
        \<and> (\<forall>m\<in>set p. Some m \<notin> set (take i ?outs) \<longrightarrow> area m < area a)" by blast
    from mem 1 2 3 show ?thesis by blast
  qed
  have order: "area b \<le> area a \<and> a \<noteq> b"
    if ij: "i < j" "j < n" and a: "?outs ! i = Some a" and b: "?outs ! j = Some b" for i j a b
  proof -
    from ij have i: "i < n" by simp
    have la: "length ?outs = n" by (rule length_session)
    from ij a la have "Some a \<in> set (take j ?outs)"
      by (auto simp add: in_set_conv_nth intro!: exI [of _ i])
    moreover from first [OF ij(2) b] have fb: "b \<in> set masks"
      "Some b \<notin> set (take j ?outs)" by auto
    ultimately have ne: "a \<noteq> b" by auto
    have "Some b \<notin> set (take i ?outs)"
    proof
      assume "Some b \<in> set (take i ?outs)"
      then have "Some b \<in> set (take j ?outs)"
        using ij(1) by (meson less_imp_le_nat set_take_subset_set_take subsetD)
      with fb(2) show False by simp
    qed
    with first [OF i a] fb(1) have "area b \<le> area a" by blast
    with ne show ?thesis by simp
  qed
  have terminal: "?outs ! j = None" if ij: "i \<le> j" "j < n" and e: "?outs ! i = None" for i j
  proof -
    from ij have i: "i < n" by simp
    from e i have "offered masks (?S i) = None" by (simp add: session_nth)
    then have "selected_after (i + (j - i)) masks {} = ?S i" by (rule session_terminal)
    with ij(1) have "?S j = ?S i" by simp
    with e i ij(2) show ?thesis by (simp add: session_nth)
  qed
  have exhausted: "?outs ! i = None"
    if i: "i < n" and all: "\<forall>m\<in>set masks. Some m \<in> set (take i ?outs)" for i
  proof -
    have "\<forall>m\<in>set masks. ident m \<in> ?S i"
      using sel [of i] i all by simp
    then have "chosen masks (?S i) = None" by (rule chosen_all_selected)
    with i show ?thesis by (simp add: out)
  qed
  have live: "\<exists>a. ?outs ! i = Some a"
    if i: "i < n" and m: "\<exists>m\<in>set masks. Some m \<notin> set (take i ?outs) \<and> 0 < area m" for i
  proof (cases "chosen masks (?S i)")
    case None
    from m obtain x where x: "x \<in> set masks" "Some x \<notin> set (take i ?outs)" "0 < area x"
      by blast
    with sel [of i x] i have "ident x \<notin> ?S i" by simp
    with chosen_None [OF None] x(1) have "area x \<le> 0" by blast
    with x(3) show ?thesis by simp
  next
    case (Some a)
    with i show ?thesis by (simp add: out)
  qed
  from first order terminal exhausted live show ?thesis by blast
qed

subsection \<open>The centroid\<close>

lemma nonzero_mem:
  "(r, c) \<in> set (nonzero seg) \<longleftrightarrow> r < length seg \<and> c < length (seg ! r) \<and> seg ! r ! c"
  by (auto simp add: nonzero_def)

lemma nonzero_nonempty:
  "r < length seg \<Longrightarrow> c < length (seg ! r) \<Longrightarrow> seg ! r ! c \<Longrightarrow> nonzero seg \<noteq> []"
  using nonzero_mem [of r c seg] by auto

lemma sum_list_upper:
  "\<forall>x\<in>set xs. x \<le> (M::nat) \<Longrightarrow> sum_list xs \<le> length xs * M"
  by (induction xs) auto

lemma sum_list_lower:
  "\<forall>x\<in>set xs. (m::nat) \<le> x \<Longrightarrow> length xs * m \<le> sum_list xs"
  by (induction xs) auto

lemma mean_bounds:
  assumes "xs \<noteq> []"
  shows "Min (set xs) \<le> sum_list xs div length xs"
    and "sum_list xs div length xs \<le> Max (set xs)"
proof -
  have n: "0 < length xs" using assms by simp
  have "length xs * Min (set xs) \<le> sum_list xs"
    by (rule sum_list_lower) simp
  then have "length xs * Min (set xs) div length xs \<le> sum_list xs div length xs"
    by (rule div_le_mono)
  with n show "Min (set xs) \<le> sum_list xs div length xs" by simp
  have "sum_list xs \<le> length xs * Max (set xs)"
    by (rule sum_list_upper) simp
  then have "sum_list xs div length xs \<le> length xs * Max (set xs) div length xs"
    by (rule div_le_mono)
  with n show "sum_list xs div length xs \<le> Max (set xs)" by simp
qed

text \<open>
  Claim C10. When \<open>get_best_point\<close> returns a centroid \<open>(row, col)\<close>, the row lies between
  the least and the greatest row of the true pixels of the chosen mask, and the column
  between their least and greatest column. With masks of the shape of the image, \<open>row\<close> is
  below the image height and \<open>col\<close> below the image width. The coordinates are natural
  numbers, so they are not negative.
\<close>

theorem centroid_in_bounding_box:
  assumes g: "get_best_point masks sel = (Some (row, col), sel')"
    and shape: "\<forall>m\<in>set masks. length (segmentation m) = height
                  \<and> (\<forall>r\<in>set (segmentation m). length r = width)"
  shows "\<exists>largest. chosen masks sel = Some largest
           \<and> nonzero (segmentation largest) \<noteq> []
           \<and> Min (fst ` set (nonzero (segmentation largest))) \<le> row
           \<and> row \<le> Max (fst ` set (nonzero (segmentation largest)))
           \<and> Min (snd ` set (nonzero (segmentation largest))) \<le> col
           \<and> col \<le> Max (snd ` set (nonzero (segmentation largest)))
           \<and> row < height \<and> col < width"
proof -
  from g obtain a where a: "chosen masks sel = Some a"
    and ne: "nonzero (segmentation a) \<noteq> []"
    and c: "centroid_of (nonzero (segmentation a)) = (row, col)"
    by (auto simp add: get_best_point_def chosen_def Let_def split: option.splits if_splits)
  let ?idx = "nonzero (segmentation a)"
  let ?rows = "map fst ?idx" and ?cols = "map snd ?idx"
  from a have mem: "a \<in> set masks" by (rule chosen_Some_mem)
  from c have row: "row = sum_list ?rows div length ?rows"
    and col: "col = sum_list ?cols div length ?cols"
    by (simp_all add: centroid_of_def)
  from ne have r: "?rows \<noteq> []" and k: "?cols \<noteq> []" by simp_all
  have 1: "Min (fst ` set ?idx) \<le> row" "row \<le> Max (fst ` set ?idx)"
    using mean_bounds [OF r] row by simp_all
  have 2: "Min (snd ` set ?idx) \<le> col" "col \<le> Max (snd ` set ?idx)"
    using mean_bounds [OF k] col by simp_all
  have inside: "fst p < height \<and> snd p < width" if "p \<in> set ?idx" for p
  proof -
    obtain y x where p: "p = (y, x)" by (cases p)
    with that have yx: "y < length (segmentation a)" "x < length (segmentation a ! y)"
      by (simp_all add: nonzero_mem)
    from yx(1) have "segmentation a ! y \<in> set (segmentation a)" by simp
    with shape mem yx p show ?thesis by auto
  qed
  have "Max (fst ` set ?idx) \<in> fst ` set ?idx" using ne by (intro Max_in) auto
  with inside have 3: "Max (fst ` set ?idx) < height" by auto
  have "Max (snd ` set ?idx) \<in> snd ` set ?idx" using ne by (intro Max_in) auto
  with inside have 4: "Max (snd ` set ?idx) < width" by auto
  from 1(2) 3 have 5: "row < height" by (rule le_less_trans)
  from 2(2) 4 have 6: "col < width" by (rule le_less_trans)
  from a ne 1 2 5 6 show ?thesis by blast
qed

subsection \<open>Examples of sessions\<close>

lemma example_nondegenerate:
  "\<forall>m\<in>set example_inventory. nonzero (segmentation m) \<noteq> []"
proof -
  have "nonzero [replicate (Suc n) True @ r] \<noteq> []" for n r
    by (rule nonzero_nonempty [of 0 _ 0]) simp_all
  from this [of 49] this [of 199] this [of 9] show ?thesis
    by (simp add: example_inventory_def)
qed

lemma example_distinct: "distinct (map ident example_inventory)"
  by (simp add: example_inventory_def)

lemma example_session:
  "session 4 example_inventory {}
     = [Some (example_inventory ! 1), Some (example_inventory ! 0),
        Some (example_inventory ! 2), None]"
proof -
  have s: "session 4 masks sel =
             offered masks sel # session 3 masks (snd (get_best_point masks sel))"
    "session 3 masks sel =
             offered masks sel # session 2 masks (snd (get_best_point masks sel))"
    "session 2 masks sel =
             offered masks sel # session 1 masks (snd (get_best_point masks sel))"
    "session 1 masks sel = [offered masks sel]" for masks sel
    by (simp_all add: numeral_eq_Suc)
  note nd = get_best_point_nondegenerate [OF example_nondegenerate]
  have c0: "chosen example_inventory {} = Some (example_inventory ! 1)"
    by (simp add: chosen_def example_inventory_def)
  have c1: "chosen example_inventory {1} = Some (example_inventory ! 0)"
    by (simp add: chosen_def example_inventory_def)
  have c2: "chosen example_inventory {0, 1} = Some (example_inventory ! 2)"
    by (simp add: chosen_def example_inventory_def)
  have c3: "chosen example_inventory {2, 0, 1} = None"
    by (simp add: chosen_def example_inventory_def)
  have i: "ident (example_inventory ! 1) = 1" "ident (example_inventory ! 0) = 0"
    "ident (example_inventory ! 2) = 2"
    by (simp_all add: example_inventory_def)
  have o0: "offered example_inventory {} = Some (example_inventory ! 1)"
    by (simp only: nd c0)
  have n0: "snd (get_best_point example_inventory {}) = {1}"
    by (simp only: nd c0 i option.case)
  have o1: "offered example_inventory {1} = Some (example_inventory ! 0)"
    by (simp only: nd c1)
  have n1: "snd (get_best_point example_inventory {1}) = {0, 1}"
    by (simp only: nd c1 i option.case)
  have o2: "offered example_inventory {0, 1} = Some (example_inventory ! 2)"
    by (simp only: nd c2)
  have n2: "snd (get_best_point example_inventory {0, 1}) = {2, 0, 1}"
    by (simp only: nd c2 i option.case)
  have o3: "offered example_inventory {2, 0, 1} = None"
    by (simp only: nd c3)
  show ?thesis
    by (simp only: s o0 n0 o1 n1 o2 n2 o3)
qed

theorem largest_unselected_order_witness:
  "distinct (map ident example_inventory)
   \<and> list_all (\<lambda>m. nonzero (segmentation m) \<noteq> []) example_inventory
   \<and> map (map_option area) (session 4 example_inventory {})
       = [Some 200, Some 50, Some 10, None]
   \<and> area (example_inventory ! 0) \<le> area (example_inventory ! 1)
   \<and> example_inventory ! 1 \<noteq> example_inventory ! 0
   \<and> session 4 example_inventory {} ! 3 = None"
proof -
  note t = largest_unselected_order [OF example_distinct example_nondegenerate, of 4]
  from t have order: "\<forall>i j a b. i < j \<and> j < 4 \<and> session 4 example_inventory {} ! i = Some a
      \<and> session 4 example_inventory {} ! j = Some b \<longrightarrow> area b \<le> area a \<and> a \<noteq> b"
    by blast
  have "(0::nat) < 1 \<and> (1::nat) < 4
      \<and> session 4 example_inventory {} ! 0 = Some (example_inventory ! 1)
      \<and> session 4 example_inventory {} ! 1 = Some (example_inventory ! 0)"
    by (simp add: example_session)
  with order have o: "area (example_inventory ! 0) \<le> area (example_inventory ! 1)
      \<and> example_inventory ! 1 \<noteq> example_inventory ! 0" by blast
  from t have ex: "\<forall>i<4. (\<forall>m\<in>set example_inventory.
      Some m \<in> set (take i (session 4 example_inventory {})))
        \<longrightarrow> session 4 example_inventory {} ! i = None" by blast
  have "\<forall>m\<in>set example_inventory. Some m \<in> set (take 3 (session 4 example_inventory {}))"
    by (simp add: example_session) (simp add: example_inventory_def)
  with ex have e: "session 4 example_inventory {} ! 3 = None" by simp
  have a: "map (map_option area) (session 4 example_inventory {})
       = [Some 200, Some 50, Some 10, None]"
    by (simp add: example_session) (simp add: example_inventory_def)
  have n: "list_all (\<lambda>m. nonzero (segmentation m) \<noteq> []) example_inventory"
    using example_nondegenerate by (simp add: list_all_iff)
  from example_distinct n a o e show ?thesis by simp
qed

theorem centroid_in_bounding_box_witness:
  "get_best_point small_inventory {} = (Some (0, 1), {1})
   \<and> nonzero (segmentation (small_inventory ! 1)) = [(0, 1), (0, 2), (1, 1), (1, 2)]
   \<and> (\<exists>largest. chosen small_inventory {} = Some largest
         \<and> nonzero (segmentation largest) \<noteq> []
         \<and> Min (fst ` set (nonzero (segmentation largest))) \<le> 0
         \<and> 0 \<le> Max (fst ` set (nonzero (segmentation largest)))
         \<and> Min (snd ` set (nonzero (segmentation largest))) \<le> 1
         \<and> 1 \<le> Max (snd ` set (nonzero (segmentation largest)))
         \<and> 0 < (2::nat) \<and> 1 < (3::nat))"
proof -
  have nz: "nonzero [[False, True, True], [False, True, True]] = [(0, 1), (0, 2), (1, 1), (1, 2)]"
    by (simp add: nonzero_def upt_rec [of 0] upt_rec [of 1] upt_rec [of 2] upt_rec [of 3])
  have c: "chosen small_inventory {} = Some (small_inventory ! 1)"
    by (simp add: chosen_def small_inventory_def)
  have g: "get_best_point small_inventory {} = (Some (0, 1), {1})"
    using c by (simp add: get_best_point_def chosen_def small_inventory_def nz centroid_of_def)
  have shape: "\<forall>m\<in>set small_inventory. length (segmentation m) = 2
                  \<and> (\<forall>r\<in>set (segmentation m). length r = 3)"
    by (simp add: small_inventory_def)
  have n: "nonzero (segmentation (small_inventory ! 1)) = [(0, 1), (0, 2), (1, 1), (1, 2)]"
    using nz by (simp add: small_inventory_def)
  from g n centroid_in_bounding_box [OF g shape] show ?thesis
    by (intro conjI) assumption+
qed

lemma degenerate_choice_unchanged:
  assumes "chosen masks sel = Some a" and "nonzero (segmentation a) = []"
  shows "get_best_point masks sel = (None, sel)"
  using assms by (simp add: get_best_point_def chosen_def)

text \<open>
  Claim C8. When the chosen mask has no true pixel, the call returns the empty result before
  it marks the mask as selected (the \<open>return None\<close> of line 220 precedes line 225). The
  selection state is unchanged, so the next call chooses the same mask again, and the smaller
  mask with a true pixel behind it is never handed out: every call of the session returns
  the empty result.
\<close>

theorem degenerate_mask_chosen_again:
  "chosen degenerate_inventory {} = Some (degenerate_inventory ! 0)
   \<and> nonzero (segmentation (degenerate_inventory ! 0)) = []
   \<and> get_best_point degenerate_inventory {} = (None, {})
   \<and> chosen degenerate_inventory (snd (get_best_point degenerate_inventory {}))
       = Some (degenerate_inventory ! 0)
   \<and> session 3 degenerate_inventory {} = [None, None, None]"
proof -
  have nz: "nonzero [[False, False, False], [False, False, False]] = []"
    by (simp add: nonzero_def)
  have c: "chosen degenerate_inventory {} = Some (degenerate_inventory ! 0)"
    by (simp add: chosen_def degenerate_inventory_def)
  have g: "get_best_point degenerate_inventory {} = (None, {})"
    using c by (simp add: get_best_point_def chosen_def degenerate_inventory_def nz)
  have o: "offered degenerate_inventory {} = None"
    by (simp add: offered_def g)
  have "session 3 degenerate_inventory {} = [None, None, None]"
    by (simp add: numeral_eq_Suc g o)
  with c g nz show ?thesis by (simp add: degenerate_inventory_def)
qed

end
